theory Spec2Isabelle
  imports Complex_Main
begin

section \<open>Mobile-menu controller (MobileMenuModule)\<close>

text \<open>
  The module keeps three flags (\<open>isOpen\<close>, \<open>isAnimating\<close>, \<open>isMobile\<close>) and the touch start
  coordinates, and writes to the menu element, the hamburger button, the body and an overlay.
  \<open>open()\<close> and \<open>close()\<close> are async functions: each runs synchronously up to its
  \<open>await\<close> on the animation promise and is resumed when the animation timer fires.
  The suspended remainder of the call is the \<open>pending\<close> component of the state; the timers that
  do not resume a call (focusing the first link, detaching the overlay) are collected in
  \<open>timers\<close>. The menu element and the hamburger button are taken to exist. The overlay's own
  fade-in frame (its opacity going to 1) is left out; its click listener is a call of
  \<open>close()\<close>.
\<close>

datatype menu_pending = NoPending | OpenAwaitFrame | OpenAwaitTimeout | CloseAwaitTimeout

datatype menu_timer = FocusFirstLink | DetachOverlay

record menu =
  isOpen :: bool
  isAnimating :: bool
  isMobile :: bool
  touchStartX :: int
  touchStartY :: int
  appIsMobileMenuOpen :: bool
  navDisplay :: string
  navTransform :: string
  navOpacity :: string
  navTransition :: string
  navAriaHidden :: string
  hamburgerActive :: bool
  hamburgerAriaExpanded :: string
  hamburgerAriaLabel :: string
  bodyOverflow :: string
  overlayAttached :: bool
  overlayOpacity :: string
  hasNavLink :: bool
  pending :: menu_pending
  timers :: "menu_timer list"
  dispatched :: "(string \<times> bool) list"

definition menu_transition :: string where
  "menu_transition = ''transform 300ms ease, opacity 300ms ease''"

definition createOverlay :: "menu \<Rightarrow> menu" where
  "createOverlay s =
     (if overlayAttached s then s
      else s\<lparr>overlayAttached := True, overlayOpacity := ''0''\<rparr>)"

definition removeOverlay :: "menu \<Rightarrow> menu" where
  "removeOverlay s =
     (if overlayAttached s
      then s\<lparr>overlayOpacity := ''0'', timers := timers s @ [DetachOverlay]\<rparr>
      else s)"

definition prepareMenuOpen :: "menu \<Rightarrow> menu" where
  "prepareMenuOpen s =
     createOverlay
       (s\<lparr>navDisplay := ''flex'', navTransform := ''translateX(-100%)'', navOpacity := ''0'',
          hamburgerActive := True, bodyOverflow := ''hidden''\<rparr>)"

definition cleanupMenuClose :: "menu \<Rightarrow> menu" where
  "cleanupMenuClose s =
     removeOverlay
       (s\<lparr>navTransition := [], navTransform := [], navOpacity := [],
          hamburgerActive := False, bodyOverflow := []\<rparr>)"

definition setupMenuFocus :: "menu \<Rightarrow> menu" where
  "setupMenuFocus s = (if hasNavLink s then s\<lparr>timers := timers s @ [FocusFirstLink]\<rparr> else s)"

definition updateAccessibilityOpen :: "menu \<Rightarrow> menu" where
  "updateAccessibilityOpen s =
     s\<lparr>hamburgerAriaExpanded := ''true'', hamburgerAriaLabel := ''Close navigation menu'',
       navAriaHidden := ''false''\<rparr>"

definition updateAccessibilityClosed :: "menu \<Rightarrow> menu" where
  "updateAccessibilityClosed s =
     s\<lparr>hamburgerAriaExpanded := ''false'', hamburgerAriaLabel := ''Open navigation menu'',
       navAriaHidden := ''true''\<rparr>"

definition dispatchMenuEvent :: "string \<Rightarrow> menu \<Rightarrow> menu" where
  "dispatchMenuEvent eventType s = s\<lparr>dispatched := dispatched s @ [(eventType, isOpen s)]\<rparr>"

text \<open>\<open>open()\<close> up to \<open>await this.animateMenuIn()\<close>; the promise executor has requested a frame.\<close>

definition menu_open :: "menu \<Rightarrow> menu" where
  "menu_open s =
     (if isOpen s \<or> isAnimating s \<or> \<not> isMobile s then s
      else (prepareMenuOpen
              (s\<lparr>isAnimating := True, isOpen := True, appIsMobileMenuOpen := True\<rparr>))
             \<lparr>pending := OpenAwaitFrame\<rparr>)"

text \<open>The animation-frame callback of \<open>animateMenuIn\<close>: starts the transition and its timer.\<close>

definition animateMenuIn_frame :: "menu \<Rightarrow> menu" where
  "animateMenuIn_frame s =
     s\<lparr>navTransition := menu_transition, navTransform := ''translateX(0)'', navOpacity := ''1'',
       pending := OpenAwaitTimeout\<rparr>"

text \<open>The rest of \<open>open()\<close>, run when the animation timer resolves the promise.\<close>

definition menu_open_resume :: "menu \<Rightarrow> menu" where
  "menu_open_resume s =
     dispatchMenuEvent ''mobileMenuOpened''
       ((updateAccessibilityOpen (setupMenuFocus s))\<lparr>isAnimating := False, pending := NoPending\<rparr>)"

text \<open>The rest of \<open>close()\<close> after the optional animation.\<close>

definition menu_close_finish :: "menu \<Rightarrow> menu" where
  "menu_close_finish s =
     dispatchMenuEvent ''mobileMenuClosed''
       ((updateAccessibilityClosed (cleanupMenuClose s))\<lparr>isAnimating := False, pending := NoPending\<rparr>)"

text \<open>
  \<open>close(animate)\<close> up to its \<open>await\<close>. Without animation there is no \<open>await\<close> and the call
  runs to its end at once.
\<close>

definition menu_close :: "bool \<Rightarrow> menu \<Rightarrow> menu" where
  "menu_close animate s =
     (if \<not> isOpen s \<or> isAnimating s then s
      else let s1 = s\<lparr>isAnimating := True, isOpen := False, appIsMobileMenuOpen := False\<rparr>
           in if animate
              then s1\<lparr>navTransition := menu_transition, navTransform := ''translateX(-100%)'',
                      navOpacity := ''0'', pending := CloseAwaitTimeout\<rparr>
              else menu_close_finish s1)"

text \<open>The timer callback of \<open>animateMenuOut\<close> hides the menu and resolves; \<open>close()\<close> resumes.\<close>

definition menu_close_resume :: "menu \<Rightarrow> menu" where
  "menu_close_resume s = menu_close_finish (s\<lparr>navDisplay := ''none''\<rparr>)"

definition toggle :: "menu \<Rightarrow> menu" where
  "toggle s = (if isOpen s then menu_close True s else menu_open s)"

text \<open>The next step of the animation in flight (frame callback or timer), if there is one.\<close>

definition menu_advance :: "menu \<Rightarrow> menu" where
  "menu_advance s =
     (case pending s of
        NoPending \<Rightarrow> s
      | OpenAwaitFrame \<Rightarrow> animateMenuIn_frame s
      | OpenAwaitTimeout \<Rightarrow> menu_open_resume s
      | CloseAwaitTimeout \<Rightarrow> menu_close_resume s)"

definition menu_init :: "bool \<Rightarrow> bool \<Rightarrow> menu" where
  "menu_init mobile navlink =
     \<lparr>isOpen = False, isAnimating = False, isMobile = mobile, touchStartX = 0, touchStartY = 0,
      appIsMobileMenuOpen = False, navDisplay = [], navTransform = [], navOpacity = [],
      navTransition = [], navAriaHidden = ''true'', hamburgerActive = False,
      hamburgerAriaExpanded = ''false'', hamburgerAriaLabel = ''Toggle navigation menu'',
      bodyOverflow = [], overlayAttached = False, overlayOpacity = [], hasNavLink = navlink,
      pending = NoPending, timers = [], dispatched = []\<rparr>"

section \<open>Modal manager (ModalsModule)\<close>

text \<open>
  Elements are named by their \<open>id\<close>; the document is a map from ids to the attributes and
  inline styles the module reads and writes. \<open>document.activeElement\<close> is \<open>activeElement\<close>
  (\<open>None\<close> for \<open>null\<close>), and \<open>el.focus()\<close> is taken to move the focus to \<open>el\<close>.
  As for the menu, an async call is cut at its \<open>await\<close>: \<open>mpending\<close> holds the suspended
  remainder. \<open>CloseTimeout m nxt\<close> is a \<open>close()\<close> of element \<open>m\<close> waiting for its animation
  timer; \<open>nxt = Some b\<close> when that \<open>close()\<close> is awaited inside \<open>open(b)\<close>, whose remainder
  runs right after it (no other task can run in between). Of the focus trap, the timer that
  focuses the first focusable element is modelled (\<open>focusTimers\<close>); its Tab-key listeners are
  only counted (\<open>elTrapHandlers\<close>).
\<close>

record modal_el =
  elClassModal :: bool
  elRole :: "string option"
  elAriaModal :: "string option"
  elAriaHidden :: "string option"
  elTabindex :: "string option"
  elDisplay :: string
  elOpacity :: string
  elTransform :: string
  elTransition :: string
  elHasBackdrop :: bool
  elFocusable :: "string list"
  elTrapHandlers :: nat

datatype modal_pending =
  Idle | CloseTimeout string "string option" | OpenFrame string | OpenTimeout string

record modals =
  activeModal :: "string option"
  previousFocus :: "string option"
  modalIsAnimating :: bool
  escapeKeyEnabled :: bool
  focusTrap :: bool
  activeElement :: "string option"
  pageOverflow :: string
  doc :: "string \<rightharpoonup> modal_el"
  mpending :: modal_pending
  focusTimers :: "string list"
  modalEvents :: "(string \<times> string) list"

definition modal_transition :: string where
  "modal_transition = ''opacity 300ms ease, transform 300ms ease''"

definition upd_el :: "string \<Rightarrow> (modal_el \<Rightarrow> modal_el) \<Rightarrow> modals \<Rightarrow> modals" where
  "upd_el m f s = s\<lparr>doc := (doc s)(m := map_option f (doc s m))\<rparr>"

text \<open>\<open>setupAccessibility\<close>: every element of class \<open>modal\<close> gets its ARIA attributes.\<close>

definition setupAccessibility :: "(string \<rightharpoonup> modal_el) \<Rightarrow> (string \<rightharpoonup> modal_el)" where
  "setupAccessibility d =
     (\<lambda>m. map_option
        (\<lambda>e. if elClassModal e
             then e\<lparr>elRole := Some ''dialog'', elAriaModal := Some ''true'',
                    elAriaHidden := Some ''true'', elTabindex := Some ''-1''\<rparr>
             else e) (d m))"

definition modal_init :: "(string \<rightharpoonup> modal_el) \<Rightarrow> string option \<Rightarrow> modals" where
  "modal_init d foc =
     \<lparr>activeModal = None, previousFocus = None, modalIsAnimating = False,
      escapeKeyEnabled = True, focusTrap = True, activeElement = foc, pageOverflow = [],
      doc = setupAccessibility d, mpending = Idle, focusTimers = [], modalEvents = []\<rparr>"

definition dispatchModalEvent :: "string \<Rightarrow> string \<Rightarrow> modals \<Rightarrow> modals" where
  "dispatchModalEvent eventType modalId s = s\<lparr>modalEvents := modalEvents s @ [(eventType, modalId)]\<rparr>"

definition prepareModal :: "string \<Rightarrow> modals \<Rightarrow> modals" where
  "prepareModal m s =
     (upd_el m (\<lambda>e. e\<lparr>elHasBackdrop := True, elDisplay := ''flex'', elOpacity := ''0'',
                      elTransform := ''scale(0.9)''\<rparr>) s)
       \<lparr>pageOverflow := ''hidden''\<rparr>"

definition cleanupModal :: "string \<Rightarrow> modals \<Rightarrow> modals" where
  "cleanupModal m s =
     (upd_el m (\<lambda>e. e\<lparr>elTransition := [], elTransform := [], elAriaHidden := Some ''true''\<rparr>) s)
       \<lparr>pageOverflow := []\<rparr>"

definition setupFocusTrap :: "string \<Rightarrow> modals \<Rightarrow> modals" where
  "setupFocusTrap m s =
     (if \<not> focusTrap s then s
      else case doc s m of
             None \<Rightarrow> s
           | Some e \<Rightarrow>
               (case elFocusable e of
                  [] \<Rightarrow> s
                | firstElement # _ \<Rightarrow>
                    (upd_el m (\<lambda>e. e\<lparr>elTrapHandlers := Suc (elTrapHandlers e)\<rparr>) s)
                      \<lparr>focusTimers := focusTimers s @ [firstElement]\<rparr>))"

text \<open>
  The part of \<open>open()\<close> after the optional \<open>await this.close()\<close>, up to
  \<open>await this.animateIn(modal)\<close>.
\<close>

definition open_body :: "string \<Rightarrow> modals \<Rightarrow> modals" where
  "open_body m s =
     (prepareModal m
        (s\<lparr>modalIsAnimating := True, activeModal := Some m, previousFocus := activeElement s\<rparr>))
       \<lparr>mpending := OpenFrame m\<rparr>"

definition animateIn_frame :: "string \<Rightarrow> modals \<Rightarrow> modals" where
  "animateIn_frame m s =
     (upd_el m (\<lambda>e. e\<lparr>elTransition := modal_transition, elOpacity := ''1'',
                      elTransform := ''scale(1)''\<rparr>) s)
       \<lparr>mpending := OpenTimeout m\<rparr>"

definition open_resume :: "string \<Rightarrow> modals \<Rightarrow> modals" where
  "open_resume m s =
     dispatchModalEvent ''modalOpened'' m
       ((upd_el m (\<lambda>e. e\<lparr>elAriaHidden := Some ''false''\<rparr>) (setupFocusTrap m s))
          \<lparr>activeElement := Some m, modalIsAnimating := False, mpending := Idle\<rparr>)"

text \<open>\<open>close()\<close> up to \<open>await this.animateOut(modal)\<close>.\<close>

definition close_begin :: "string option \<Rightarrow> modals \<Rightarrow> modals" where
  "close_begin nxt s =
     (case activeModal s of
        None \<Rightarrow> s
      | Some m \<Rightarrow>
          if modalIsAnimating s then s
          else (upd_el m (\<lambda>e. e\<lparr>elTransition := modal_transition, elOpacity := ''0'',
                                elTransform := ''scale(0.9)''\<rparr>)
                  (s\<lparr>modalIsAnimating := True\<rparr>))
                 \<lparr>mpending := CloseTimeout m nxt\<rparr>)"

definition modal_close :: "modals \<Rightarrow> modals" where
  "modal_close s = close_begin None s"

text \<open>
  The timer callback of \<open>animateOut\<close> hides the element and resolves; the rest of \<open>close()\<close>
  follows: clean-up, focus restore, state reset, event.
\<close>

definition close_resume :: "string \<Rightarrow> modals \<Rightarrow> modals" where
  "close_resume m s =
     (let s1 = cleanupModal m (upd_el m (\<lambda>e. e\<lparr>elDisplay := ''none''\<rparr>) s);
          s2 = (case previousFocus s1 of
                  None \<Rightarrow> s1
                | Some p \<Rightarrow> s1\<lparr>activeElement := Some p\<rparr>)
      in dispatchModalEvent ''modalClosed'' m
           (s2\<lparr>activeModal := None, previousFocus := None, modalIsAnimating := False,
               mpending := Idle\<rparr>))"

definition modal_open :: "string \<Rightarrow> modals \<Rightarrow> modals" where
  "modal_open modalId s =
     (if modalIsAnimating s then s
      else case doc s modalId of
             None \<Rightarrow> s
           | Some _ \<Rightarrow>
               (case activeModal s of
                  Some _ \<Rightarrow> close_begin (Some modalId) s
                | None \<Rightarrow> open_body modalId s))"

definition modal_tick :: "modals \<Rightarrow> modals" where
  "modal_tick s =
     (case mpending s of
        Idle \<Rightarrow> s
      | CloseTimeout m nxt \<Rightarrow>
          (case nxt of
             None \<Rightarrow> close_resume m s
           | Some b \<Rightarrow> open_body b (close_resume m s))
      | OpenFrame m \<Rightarrow> animateIn_frame m s
      | OpenTimeout m \<Rightarrow> open_resume m s)"

definition handleKeydown :: "string \<Rightarrow> modals \<Rightarrow> modals" where
  "handleKeydown key s =
     (if activeModal s = None then s
      else if key = ''Escape'' \<and> escapeKeyEnabled s then modal_close s else s)"

definition handleBackdropClick :: "bool \<Rightarrow> modals \<Rightarrow> modals" where
  "handleBackdropClick onBackdrop s =
     (if activeModal s = None then s
      else if onBackdrop then modal_close s else s)"

text \<open>
  What can happen to the modal manager: calls of its API, its listeners, the animation
  frame or timer of the call in flight, the 100 ms focus timer of the focus trap, and the
  user (or other code) moving the focus.
\<close>

datatype modal_event =
  EvOpen string | EvClose | EvTick | EvFocusTimer | EvFocus "string option"
  | EvKey string | EvClick bool

fun modal_step :: "modals \<Rightarrow> modal_event \<Rightarrow> modals" where
  "modal_step s (EvOpen m) = modal_open m s"
| "modal_step s EvClose = modal_close s"
| "modal_step s EvTick = modal_tick s"
| "modal_step s EvFocusTimer =
     (case focusTimers s of
        [] \<Rightarrow> s
      | x # xs \<Rightarrow> s\<lparr>activeElement := Some x, focusTimers := xs\<rparr>)"
| "modal_step s (EvFocus f) = s\<lparr>activeElement := f\<rparr>"
| "modal_step s (EvKey k) = handleKeydown k s"
| "modal_step s (EvClick b) = handleBackdropClick b s"

definition modal_run :: "modals \<Rightarrow> modal_event list \<Rightarrow> modals" where
  "modal_run s evs = foldl modal_step s evs"

inductive reachable :: "modals \<Rightarrow> bool" where
  reach_init: "reachable (modal_init d foc)"
| reach_step: "reachable s \<Longrightarrow> reachable (modal_step s ev)"

definition shown :: "modals \<Rightarrow> string \<Rightarrow> bool" where
  "shown s m = (case doc s m of
                  None \<Rightarrow> False
                | Some e \<Rightarrow> elClassModal e \<and> elAriaHidden e = Some ''false'')"

definition modal_inv :: "modals \<Rightarrow> bool" where
  "modal_inv s =
     ((\<forall>m. shown s m \<longrightarrow> activeModal s = Some m)
      \<and> (\<forall>m. activeModal s = Some m \<longrightarrow> doc s m \<noteq> None)
      \<and> (mpending s \<noteq> Idle \<longrightarrow> modalIsAnimating s)
      \<and> (\<forall>m nxt. mpending s = CloseTimeout m nxt \<longrightarrow> activeModal s = Some m)
      \<and> (\<forall>m b. mpending s = CloseTimeout m (Some b) \<longrightarrow> doc s b \<noteq> None)
      \<and> (\<forall>m. mpending s = OpenFrame m \<longrightarrow> activeModal s = Some m)
      \<and> (\<forall>m. mpending s = OpenTimeout m \<longrightarrow> activeModal s = Some m))"

text \<open>A page with two dialogs and a trigger button, used to run the manager on.\<close>

definition plain_el :: "bool \<Rightarrow> string list \<Rightarrow> modal_el" where
  "plain_el cls foc =
     \<lparr>elClassModal = cls, elRole = None, elAriaModal = None, elAriaHidden = None,
      elTabindex = None, elDisplay = [], elOpacity = [], elTransform = [], elTransition = [],
      elHasBackdrop = False, elFocusable = foc, elTrapHandlers = 0\<rparr>"

definition two_modals :: "string \<rightharpoonup> modal_el" where
  "two_modals =
     [''newsletter-modal'' \<mapsto> plain_el True [''newsletter-email''],
      ''community-modal'' \<mapsto> plain_el True [],
      ''trigger'' \<mapsto> plain_el False []]"

text \<open>The page after the newsletter dialog has been opened from the trigger button.\<close>

definition newsletter_open :: modals where
  "newsletter_open =
     modal_run (modal_init two_modals (Some ''trigger''))
       [EvOpen ''newsletter-modal'', EvTick, EvTick]"



section \<open>Navigation controller (NavigationModule)\<close>

text \<open>
  A section has an \<open>id\<close> attribute and the integer layout values \<open>offsetTop\<close> and
  \<open>offsetHeight\<close>; \<open>window.scrollY\<close> may be fractional. A navigation link has an \<open>href\<close>
  attribute (\<open>None\<close> when absent), the CSS class \<open>active\<close> or not, and \<open>aria-current\<close>.
\<close>

record page_section =
  secId :: string
  offsetTop :: int
  offsetHeight :: int

record nav_link =
  href :: "string option"
  classActive :: bool
  ariaCurrent :: "string option"

record navigation =
  scrollThreshold :: int
  sectionOffset :: int
  isScrolled :: bool
  activeSection :: string
  sections :: "page_section list"
  navLinks :: "nav_link list"







section \<open>Strings and regular expressions of the host language\<close>

text \<open>
  Strings are lists of code units below 256. White space (\<open>\s\<close> in a pattern, and what
  \<open>trim()\<close> removes) is then tab, line feed, vertical tab, form feed, carriage return,
  space and no-break space.
\<close>

definition is_space :: "char \<Rightarrow> bool" where
  "is_space c = (of_char c \<in> {9, 10, 11, 12, 13, 32, 160 :: nat})"

definition is_digit :: "char \<Rightarrow> bool" where
  "is_digit c = (48 \<le> (of_char c :: nat) \<and> (of_char c :: nat) \<le> 57)"

definition trim :: "string \<Rightarrow> string" where
  "trim s = rev (dropWhile is_space (rev (dropWhile is_space s)))"

text \<open>\<open>s.split(c)\<close> for a one-character separator: never empty, \<open>''.split(c) = ['']\<close>.\<close>

fun split_acc :: "char \<Rightarrow> string \<Rightarrow> string \<Rightarrow> string list" where
  "split_acc sep acc [] = [rev acc]"
| "split_acc sep acc (c # cs) =
     (if c = sep then rev acc # split_acc sep [] cs else split_acc sep (c # acc) cs)"

definition split :: "char \<Rightarrow> string \<Rightarrow> string list" where
  "split sep s = split_acc sep [] s"

text \<open>
  A pattern anchored at both ends (\<open>^...$\<close>, no flags) accepts a string when the whole
  string is in its language; membership is decided with derivatives.
\<close>

datatype re = Never | Eps | Class "char \<Rightarrow> bool" | Cat re re | Or re re | Many re

fun nullable :: "re \<Rightarrow> bool" where
  "nullable Never = False"
| "nullable Eps = True"
| "nullable (Class p) = False"
| "nullable (Cat r s) = (nullable r \<and> nullable s)"
| "nullable (Or r s) = (nullable r \<or> nullable s)"
| "nullable (Many r) = True"

fun derive :: "char \<Rightarrow> re \<Rightarrow> re" where
  "derive c Never = Never"
| "derive c Eps = Never"
| "derive c (Class p) = (if p c then Eps else Never)"
| "derive c (Cat r s) =
     (if nullable r then Or (Cat (derive c r) s) (derive c s) else Cat (derive c r) s)"
| "derive c (Or r s) = Or (derive c r) (derive c s)"
| "derive c (Many r) = Cat (derive c r) (Many r)"

definition test :: "re \<Rightarrow> string \<Rightarrow> bool" where
  "test r s = nullable (foldl (\<lambda>q c. derive c q) r s)"

text \<open>
  What a pattern denotes: the set of strings it matches as a whole. It is used only to
  check the matcher.
\<close>

inductive_set repeats :: "string set \<Rightarrow> string set" for A :: "string set" where
  none: "[] \<in> repeats A"
| more: "u \<in> A \<Longrightarrow> v \<in> repeats A \<Longrightarrow> u @ v \<in> repeats A"

definition joined :: "string set \<Rightarrow> string set \<Rightarrow> string set" where
  "joined A B = {u @ v | u v. u \<in> A \<and> v \<in> B}"

fun matched :: "re \<Rightarrow> string set" where
  "matched Never = {}"
| "matched Eps = {[]}"
| "matched (Class p) = {[c] | c. p c}"
| "matched (Cat r s) = joined (matched r) (matched s)"
| "matched (Or r s) = matched r \<union> matched s"
| "matched (Many r) = repeats (matched r)"

definition some :: "re \<Rightarrow> re" where
  "some r = Cat r (Many r)"

definition maybe :: "re \<Rightarrow> re" where
  "maybe r = Or Eps r"

fun exactly :: "nat \<Rightarrow> re \<Rightarrow> re" where
  "exactly 0 r = Eps"
| "exactly (Suc n) r = Cat r (exactly n r)"

fun at_most :: "nat \<Rightarrow> re \<Rightarrow> re" where
  "at_most 0 r = Eps"
| "at_most (Suc n) r = maybe (Cat r (at_most n r))"

text \<open>\<open>/^[^\s@]+@[^\s@]+\.[^\s@]+$/\<close>\<close>

definition email_word :: re where
  "email_word = some (Class (\<lambda>c. \<not> is_space c \<and> c \<noteq> CHR ''@''))"

definition emailRegex :: re where
  "emailRegex =
     Cat email_word (Cat (Class (\<lambda>c. c = CHR ''@''))
       (Cat email_word (Cat (Class (\<lambda>c. c = CHR ''.'')) email_word)))"

text \<open>\<open>/^[\+]?[1-9][\d]{0,2}[\s\-\(\)]*[\d\s\-\(\)]{7,}$/\<close>\<close>

definition phone_punct :: "char \<Rightarrow> bool" where
  "phone_punct c = (is_space c \<or> c = CHR ''-'' \<or> c = CHR ''('' \<or> c = CHR '')'')"

definition phoneRegex :: re where
  "phoneRegex =
     Cat (maybe (Class (\<lambda>c. c = CHR ''+'')))
       (Cat (Class (\<lambda>c. 49 \<le> (of_char c :: nat) \<and> (of_char c :: nat) \<le> 57))
       (Cat (at_most 2 (Class is_digit))
       (Cat (Many (Class phone_punct))
       (Cat (exactly 7 (Class (\<lambda>c. is_digit c \<or> phone_punct c)))
            (Many (Class (\<lambda>c. is_digit c \<or> phone_punct c)))))))"

section \<open>Form pipeline (FormsModule)\<close>

text \<open>
  The right operand of \<open>value.length >= minLength\<close> is the text after the colon of the rule,
  converted to a number by the comparison. Covered here: a run of decimal digits with
  optional surrounding white space, and the empty string (zero). A missing parameter
  (\<open>undefined\<close>) is not a number. Other spellings (sign, fraction, exponent, hexadecimal,
  \<open>Infinity\<close>) are outside this model, which treats them as not a number.
\<close>

definition to_number :: "string \<Rightarrow> nat option" where
  "to_number s =
     (let t = trim s
      in if list_all is_digit t
         then Some (foldl (\<lambda>n c. 10 * n + (of_char c - 48)) 0 t)
         else None)"

datatype rule =
  PatternRule re string
  | ValidateRule "string \<Rightarrow> string option \<Rightarrow> bool" "string option \<Rightarrow> string"

definition param_text :: "string option \<Rightarrow> string" where
  "param_text p = (case p of None \<Rightarrow> ''undefined'' | Some t \<Rightarrow> t)"

definition length_at_least :: "string \<Rightarrow> string option \<Rightarrow> bool" where
  "length_at_least v p =
     (case p of None \<Rightarrow> False
      | Some t \<Rightarrow> (case to_number t of None \<Rightarrow> False | Some n \<Rightarrow> length v \<ge> n))"

definition length_at_most :: "string \<Rightarrow> string option \<Rightarrow> bool" where
  "length_at_most v p =
     (case p of None \<Rightarrow> False
      | Some t \<Rightarrow> (case to_number t of None \<Rightarrow> False | Some n \<Rightarrow> length v \<le> n))"

text \<open>\<open>setupValidationRules\<close>: the registry, a map from rule names to rules.\<close>

definition validationRules :: "string \<rightharpoonup> rule" where
  "validationRules =
     [''email'' \<mapsto> PatternRule emailRegex ''Please enter a valid email address'',
      ''phone'' \<mapsto> PatternRule phoneRegex ''Please enter a valid phone number'',
      ''required'' \<mapsto>
         ValidateRule (\<lambda>v p. v \<noteq> [] \<and> length (trim v) > 0) (\<lambda>p. ''This field is required''),
      ''minLength'' \<mapsto>
         ValidateRule (\<lambda>v p. v \<noteq> [] \<and> length_at_least v p)
           (\<lambda>p. ''Minimum '' @ param_text p @ '' characters required''),
      ''maxLength'' \<mapsto>
         ValidateRule (\<lambda>v p. v = [] \<or> length_at_most v p)
           (\<lambda>p. ''Maximum '' @ param_text p @ '' characters allowed'')]"

text \<open>
  An input, textarea or select of a form. \<open>errorNode\<close> is the first element of class
  \<open>field-error\<close> inside the input's parent, if there is one; each input is taken to have a
  parent of its own.
\<close>

record error_node =
  errText :: string
  errDisplay :: string
  errId :: string

record field =
  fieldName :: string
  validateAttr :: "string option"
  fieldValue :: string
  defaultValue :: string
  fieldDisabled :: bool
  classError :: bool
  errorNode :: "error_node option"
  ariaInvalid :: "string option"
  ariaDescribedby :: "string option"

definition showFieldError :: "field \<Rightarrow> string \<Rightarrow> field" where
  "showFieldError input message =
     (let errorElement = (case errorNode input of
                            None \<Rightarrow> \<lparr>errText = [], errDisplay = [], errId = []\<rparr>
                          | Some n \<Rightarrow> n)
      in input\<lparr>classError := True,
               errorNode := Some (errorElement\<lparr>errText := message, errDisplay := ''block''\<rparr>),
               ariaInvalid := Some ''true'',
               ariaDescribedby :=
                 Some (if errId errorElement = [] then ''field-error'' else errId errorElement)\<rparr>)"

definition clearFieldError :: "field \<Rightarrow> field" where
  "clearFieldError input =
     input\<lparr>classError := False,
            errorNode := map_option (\<lambda>n. n\<lparr>errDisplay := ''none''\<rparr>) (errorNode input),
            ariaInvalid := Some ''false'',
            ariaDescribedby := None\<rparr>"

text \<open>
  \<open>const [ruleName, ruleParam] = rule.split(':')\<close>: the first piece, and the second if there
  is one.
\<close>

definition rule_parts :: "string \<Rightarrow> string \<times> string option" where
  "rule_parts r =
     (case split CHR '':'' r of
        [] \<Rightarrow> ([], None)
      | [n] \<Rightarrow> (n, None)
      | n # p # _ \<Rightarrow> (n, Some p))"

text \<open>
  The loop over the rules of \<open>validateField\<close>: the message of the first rule that fails, or
  \<open>None\<close> when the loop runs to its end. A name without a registry entry is skipped.
\<close>

fun first_failure :: "string \<Rightarrow> string list \<Rightarrow> string option" where
  "first_failure v [] = None"
| "first_failure v (r # rs) =
     (case rule_parts r of
        (ruleName, ruleParam) \<Rightarrow>
          (case validationRules (trim ruleName) of
             None \<Rightarrow> first_failure v rs
           | Some (PatternRule pattern message) \<Rightarrow>
               if test pattern v then first_failure v rs else Some message
           | Some (ValidateRule validate message) \<Rightarrow>
               if validate v ruleParam then first_failure v rs else Some (message ruleParam)))"

definition validateField :: "field \<Rightarrow> bool \<times> field" where
  "validateField input =
     (case validateAttr input of
        None \<Rightarrow> (True, input)
      | Some attr \<Rightarrow>
          if attr = [] then (True, input)
          else (case first_failure (fieldValue input) (split CHR '','' attr) of
                  Some errorMessage \<Rightarrow> (False, showFieldError input errorMessage)
                | None \<Rightarrow> (True, clearFieldError input)))"

record button =
  btnText :: string
  btnDisabled :: bool
  btnClassSubmitting :: bool
  dataOriginalText :: "string option"

record banner =
  bannerText :: string
  bannerClass :: string
  bannerDisplay :: string

text \<open>
  A form: its \<open>id\<close>, its inputs in document order, the first \<open>button[type="submit"]\<close> if
  any, its other buttons, the first element of class \<open>form-message\<close> if any, and whether it
  lies inside an element of class \<open>modal\<close>.
\<close>

record form =
  formId :: string
  inputs :: "field list"
  submitButton :: "button option"
  otherButtons :: "button list"
  formMessage :: "banner option"
  insideModal :: bool

datatype forms_timer = HideMessage string | CloseModal

datatype strategy = Newsletter | Consultation | Community | Generic

record forms_module =
  validateOnInput :: bool
  validateOnBlur :: bool
  showSuccessMessages :: bool
  autoHideMessages :: bool
  submittingForms :: "string set"
  formTimers :: "forms_timer list"
  submissions :: "(string \<times> strategy \<times> (string \<times> string) list) list"
  formEvents :: "(string \<times> string) list"

definition forms_init :: forms_module where
  "forms_init =
     \<lparr>validateOnInput = True, validateOnBlur = True, showSuccessMessages = True,
      autoHideMessages = True, submittingForms = {}, formTimers = [], submissions = [],
      formEvents = []\<rparr>"

text \<open>\<open>validateForm\<close> validates every input, also after a failure.\<close>

definition validateForm :: "form \<Rightarrow> bool \<times> form" where
  "validateForm f =
     (let results = map validateField (inputs f)
      in (list_all fst results, f\<lparr>inputs := map snd results\<rparr>))"

definition showFormMessage ::
  "forms_module \<Rightarrow> form \<Rightarrow> string \<Rightarrow> string \<Rightarrow> forms_module \<times> form" where
  "showFormMessage s f message type =
     (let f' = f\<lparr>formMessage := Some \<lparr>bannerText = message,
                                       bannerClass = ''form-message '' @ type,
                                       bannerDisplay = ''block''\<rparr>\<rparr>
      in (if autoHideMessages s
          then s\<lparr>formTimers := formTimers s @ [HideMessage (formId f)]\<rparr>
          else s, f'))"

definition setFormSubmitting :: "form \<Rightarrow> bool \<Rightarrow> form" where
  "setFormSubmitting f isSubmitting =
     f\<lparr>submitButton :=
          map_option
            (\<lambda>b. if isSubmitting
                 then b\<lparr>btnDisabled := True, btnText := ''Submitting...'',
                        btnClassSubmitting := True\<rparr>
                 else b\<lparr>btnDisabled := False,
                        btnText := (case dataOriginalText b of
                                      None \<Rightarrow> ''Submit''
                                    | Some t \<Rightarrow> if t = [] then ''Submit'' else t),
                        btnClassSubmitting := False\<rparr>)
            (submitButton f),
       inputs := map (\<lambda>i. i\<lparr>fieldDisabled := isSubmitting\<rparr>) (inputs f),
       otherButtons := map (\<lambda>b. b\<lparr>btnDisabled := isSubmitting\<rparr>) (otherButtons f)\<rparr>"

text \<open>
  \<open>getFormData\<close>: the entries of \<open>new FormData(form)\<close>, which leaves out disabled and
  unnamed controls.
\<close>

definition getFormData :: "form \<Rightarrow> (string \<times> string) list" where
  "getFormData f =
     map (\<lambda>i. (fieldName i, fieldValue i))
       (filter (\<lambda>i. \<not> fieldDisabled i \<and> fieldName i \<noteq> []) (inputs f))"

text \<open>The \<open>switch\<close> on the form id, and what each strategy resolves to after its delay.\<close>

definition strategy_of :: "string \<Rightarrow> strategy" where
  "strategy_of fid =
     (if fid = ''newsletter-form'' then Newsletter
      else if fid = ''consultation-form'' then Consultation
      else if fid = ''community-form'' then Community
      else Generic)"

record submit_result =
  success :: bool
  message :: string

fun strategy_result :: "strategy \<Rightarrow> submit_result" where
  "strategy_result Newsletter =
     \<lparr>success = True, message = ''Thank you for subscribing to our newsletter!''\<rparr>"
| "strategy_result Consultation =
     \<lparr>success = True,
      message = ''Your consultation request has been submitted. We'' @ [CHR 0x27]
                @ ''ll contact you soon!''\<rparr>"
| "strategy_result Community =
     \<lparr>success = True, message = ''Welcome to our community! Check your email for next steps.''\<rparr>"
| "strategy_result Generic = \<lparr>success = True, message = ''Form submitted successfully!''\<rparr>"

text \<open>
  How the awaited submission promise settles. A rejection carries an error object, whose
  \<open>message\<close> property may be missing; a rejection with \<open>null\<close> or \<open>undefined\<close>, on which
  reading \<open>.message\<close> throws, is not part of the model.
\<close>

datatype outcome = Resolved submit_result | Rejected "string option"

datatype submit_start = Ignored | Invalid | Started

definition handleFormSuccess ::
  "forms_module \<Rightarrow> form \<Rightarrow> submit_result \<Rightarrow> forms_module \<times> form" where
  "handleFormSuccess s f result =
     (case (if showSuccessMessages s
            then showFormMessage s f (message result) ''success''
            else (s, f)) of
        (s1, f1) \<Rightarrow>
          (let f2 = f1\<lparr>inputs :=
                    map (\<lambda>i. i\<lparr>fieldValue := defaultValue i, classError := False,
                              errorNode := map_option (\<lambda>n. n\<lparr>errDisplay := ''none''\<rparr>)
                                             (errorNode i)\<rparr>)
                      (inputs f1)\<rparr>;
               s2 = (if insideModal f then s1\<lparr>formTimers := formTimers s1 @ [CloseModal]\<rparr>
                     else s1)
           in (s2\<lparr>formEvents := formEvents s2 @ [(''formSuccess'', formId f)]\<rparr>, f2)))"

definition handleFormError ::
  "forms_module \<Rightarrow> form \<Rightarrow> string option \<Rightarrow> forms_module \<times> form" where
  "handleFormError s f error =
     (let msg = (case error of
                   None \<Rightarrow> ''An error occurred. Please try again.''
                 | Some m \<Rightarrow> if m = [] then ''An error occurred. Please try again.'' else m)
      in case showFormMessage s f msg ''error'' of
           (s1, f1) \<Rightarrow> (s1\<lparr>formEvents := formEvents s1 @ [(''formError'', formId f)]\<rparr>, f1))"

text \<open>
  \<open>handleFormSubmit\<close> up to its \<open>await\<close>: the duplicate guard, validation, marking the
  form as submitting and calling the submission strategy (recorded in \<open>submissions\<close>
  with the form id, the strategy and the data passed).
\<close>

definition handleFormSubmit :: "forms_module \<Rightarrow> form \<Rightarrow> forms_module \<times> form \<times> submit_start" where
  "handleFormSubmit s f =
     (if formId f \<in> submittingForms s then (s, f, Ignored)
      else case validateForm f of
             (isValid, f1) \<Rightarrow>
               if \<not> isValid
               then (case showFormMessage s f1 ''Please correct the errors below'' ''error'' of
                       (s1, f2) \<Rightarrow> (s1, f2, Invalid))
               else let f2 = setFormSubmitting f1 True
                    in (s\<lparr>submittingForms := insert (formId f) (submittingForms s),
                           submissions := submissions s
                                          @ [(formId f, strategy_of (formId f),
                                              getFormData f2)]\<rparr>,
                        f2, Started))"

text \<open>
  The rest of \<open>handleFormSubmit\<close> once the submission has settled: success or error
  handling, then the \<open>finally\<close> block.
\<close>

definition handleFormSubmit_settled ::
  "forms_module \<Rightarrow> form \<Rightarrow> outcome \<Rightarrow> forms_module \<times> form" where
  "handleFormSubmit_settled s f out =
     (case (case out of
              Resolved result \<Rightarrow> handleFormSuccess s f result
            | Rejected error \<Rightarrow> handleFormError s f error) of
        (s1, f1) \<Rightarrow>
          (s1\<lparr>submittingForms := submittingForms s1 - {formId f}\<rparr>, setFormSubmitting f1 False))"

definition plain_field :: "string \<Rightarrow> string option \<Rightarrow> string \<Rightarrow> field" where
  "plain_field name attr v =
     \<lparr>fieldName = name, validateAttr = attr, fieldValue = v, defaultValue = [],
      fieldDisabled = False, classError = False, errorNode = None, ariaInvalid = None,
      ariaDescribedby = None\<rparr>"

text \<open>The newsletter form after \<open>setupNewsletterForm\<close>, with a button labelled Subscribe.\<close>

definition newsletter_form :: "string \<Rightarrow> form" where
  "newsletter_form v =
     \<lparr>formId = ''newsletter-form'',
      inputs = [plain_field ''email'' (Some ''required,email'') v],
      submitButton = Some \<lparr>btnText = ''Subscribe'', btnDisabled = False,
                           btnClassSubmitting = False, dataOriginalText = None\<rparr>,
      otherButtons = [], formMessage = None, insideModal = True\<rparr>"

text \<open>How many times the submission strategy has been called for a form id.\<close>

definition calls_for :: "string \<Rightarrow> forms_module \<Rightarrow> nat" where
  "calls_for fid s = length (filter (\<lambda>c. fst c = fid) (submissions s))"

text \<open>The newsletter form with a valid address, submitted once on a fresh module.\<close>

definition newsletter_started :: "forms_module \<times> form \<times> submit_start" where
  "newsletter_started = handleFormSubmit forms_init (newsletter_form ''a@b.co'')"

section \<open>Mail server: the community-join endpoint\<close>













section \<open>Properties of the pattern matcher\<close>

text \<open>\<open>test\<close> decides membership in the language of the pattern.\<close>

lemma in_joined: "x \<in> joined A B \<longleftrightarrow> (\<exists>u v. x = u @ v \<and> u \<in> A \<and> v \<in> B)"
  by (auto simp: joined_def)

lemma nil_in_joined: "[] \<in> joined A B \<longleftrightarrow> [] \<in> A \<and> [] \<in> B"
  by (simp add: in_joined)

lemma cons_in_joined:
  "c # w \<in> joined A B \<longleftrightarrow>
     ([] \<in> A \<and> c # w \<in> B) \<or> (\<exists>u v. w = u @ v \<and> c # u \<in> A \<and> v \<in> B)"
  unfolding in_joined Cons_eq_append_conv by blast

lemma nullable_matched: "nullable r \<longleftrightarrow> [] \<in> matched r"
  by (induction r) (simp_all add: nil_in_joined repeats.none)

lemma repeats_cons:
  "c # w \<in> repeats A \<longleftrightarrow> (\<exists>u v. c # u \<in> A \<and> v \<in> repeats A \<and> w = u @ v)"
proof
  assume "c # w \<in> repeats A"
  then show "\<exists>u v. c # u \<in> A \<and> v \<in> repeats A \<and> w = u @ v"
  proof (induction "c # w" arbitrary: w rule: repeats.induct)
    case (more u v)
    show ?case
    proof (cases u)
      case Nil
      with more show ?thesis by simp
    next
      case (Cons a u')
      with more.hyps(1,2,4) show ?thesis by auto
    qed
  qed
next
  assume "\<exists>u v. c # u \<in> A \<and> v \<in> repeats A \<and> w = u @ v"
  then obtain u v where "c # u \<in> A" "v \<in> repeats A" "w = u @ v" by blast
  then show "c # w \<in> repeats A"
    using repeats.more [of "c # u" A v] by simp
qed

lemma matched_derive: "w \<in> matched (derive c r) \<longleftrightarrow> c # w \<in> matched r"
proof (induction r arbitrary: w)
  case Never
  show ?case by simp
next
  case Eps
  show ?case by simp
next
  case (Class p)
  show ?case by simp
next
  case (Cat r s)
  have "w \<in> matched (derive c (Cat r s)) \<longleftrightarrow>
      (nullable r \<and> w \<in> matched (derive c s)) \<or> w \<in> joined (matched (derive c r)) (matched s)"
    by auto
  also have "\<dots> \<longleftrightarrow> ([] \<in> matched r \<and> c # w \<in> matched s)
      \<or> (\<exists>u v. w = u @ v \<and> c # u \<in> matched r \<and> v \<in> matched s)"
    unfolding in_joined nullable_matched Cat by blast
  also have "\<dots> \<longleftrightarrow> c # w \<in> matched (Cat r s)"
    by (simp add: cons_in_joined)
  finally show ?case .
next
  case (Or r s)
  then show ?case by simp
next
  case (Many r)
  have "w \<in> matched (derive c (Many r)) \<longleftrightarrow>
      (\<exists>u v. w = u @ v \<and> u \<in> matched (derive c r) \<and> v \<in> repeats (matched r))"
    by (simp add: in_joined)
  also have "\<dots> \<longleftrightarrow> (\<exists>u v. c # u \<in> matched r \<and> v \<in> repeats (matched r) \<and> w = u @ v)"
    unfolding Many by blast
  also have "\<dots> \<longleftrightarrow> c # w \<in> matched (Many r)"
    by (simp add: repeats_cons)
  finally show ?case .
qed

lemma test_matched: "test r s \<longleftrightarrow> s \<in> matched r"
proof -
  have "nullable (foldl (\<lambda>q c. derive c q) r s) \<longleftrightarrow> s \<in> matched r"
  proof (induction s arbitrary: r)
    case Nil
    then show ?case by (simp add: nullable_matched)
  next
    case (Cons c s)
    then show ?case by (simp add: matched_derive)
  qed
  then show ?thesis by (simp add: test_def)
qed


lemma repeats_class: "u \<in> repeats {[c] | c. p c} \<longleftrightarrow> list_all p u"
proof
  assume "u \<in> repeats {[c] | c. p c}"
  then show "list_all p u"
    by (induction rule: repeats.induct) auto
next
  assume "list_all p u"
  then show "u \<in> repeats {[c] | c. p c}"
  proof (induction u)
    case Nil
    show ?case by (rule repeats.none)
  next
    case (Cons c u)
    then have "[c] \<in> {[c] | c. p c}" "u \<in> repeats {[c] | c. p c}" by simp_all
    then have "[c] @ u \<in> repeats {[c] | c. p c}" by (rule repeats.more)
    then show ?case by simp
  qed
qed

lemma matched_some_class: "u \<in> matched (some (Class p)) \<longleftrightarrow> u \<noteq> [] \<and> list_all p u"
proof (cases u)
  case Nil
  then show ?thesis by (simp add: some_def nil_in_joined)
next
  case (Cons c w)
  then show ?thesis
    by (auto simp: some_def cons_in_joined repeats_class)
qed

lemma joined_char:
  "x \<in> joined A (joined {[d]} B) \<longleftrightarrow> (\<exists>u v. x = u @ d # v \<and> u \<in> A \<and> v \<in> B)"
proof
  assume "x \<in> joined A (joined {[d]} B)"
  then show "\<exists>u v. x = u @ d # v \<and> u \<in> A \<and> v \<in> B"
    by (auto simp: in_joined)
next
  assume "\<exists>u v. x = u @ d # v \<and> u \<in> A \<and> v \<in> B"
  then obtain u v where h: "x = u @ d # v" "u \<in> A" "v \<in> B" by blast
  have "d # v = [d] @ v \<and> [d] \<in> {[d]} \<and> v \<in> B" using h by simp
  then have "d # v \<in> joined {[d]} B" unfolding in_joined by blast
  with h show "x \<in> joined A (joined {[d]} B)" unfolding in_joined [of x] by blast
qed

lemma matched_literal: "matched (Class (\<lambda>c. c = d)) = {[d]}"
  by auto

text \<open>
  The strings the e-mail pattern accepts: three non-empty runs without white space and
  without \<open>@\<close>, the first two separated by \<open>@\<close> and the last two by a dot.
\<close>

lemma matched_email:
  "s \<in> matched emailRegex \<longleftrightarrow>
     (\<exists>u v w. s = u @ CHR ''@'' # v @ CHR ''.'' # w
        \<and> u \<noteq> [] \<and> v \<noteq> [] \<and> w \<noteq> []
        \<and> list_all (\<lambda>c. \<not> is_space c \<and> c \<noteq> CHR ''@'') (u @ v @ w))"
proof -
  let ?ok = "\<lambda>c. \<not> is_space c \<and> c \<noteq> CHR ''@''"
  let ?W = "matched email_word"
  have w: "x \<in> ?W \<longleftrightarrow> x \<noteq> [] \<and> list_all ?ok x" for x
    unfolding email_word_def by (rule matched_some_class)
  have "matched emailRegex = joined ?W (joined {[CHR ''@'']} (joined ?W (joined {[CHR ''.'']} ?W)))"
    by (simp only: emailRegex_def matched.simps(4) matched_literal)
  then have "s \<in> matched emailRegex \<longleftrightarrow>
      (\<exists>u r. s = u @ CHR ''@'' # r \<and> u \<in> ?W
         \<and> (\<exists>v x. r = v @ CHR ''.'' # x \<and> v \<in> ?W \<and> x \<in> ?W))"
    by (simp only: joined_char)
  also have "\<dots> \<longleftrightarrow> (\<exists>u v x. s = u @ CHR ''@'' # v @ CHR ''.'' # x
        \<and> u \<in> ?W \<and> v \<in> ?W \<and> x \<in> ?W)"
    by blast
  also have "\<dots> \<longleftrightarrow> (\<exists>u v x. s = u @ CHR ''@'' # v @ CHR ''.'' # x
        \<and> u \<noteq> [] \<and> v \<noteq> [] \<and> x \<noteq> [] \<and> list_all ?ok (u @ v @ x))"
    unfolding w by auto
  finally show ?thesis .
qed

section \<open>Properties of the mobile menu\<close>

lemma menu_open_guard: "isOpen s \<or> isAnimating s \<or> \<not> isMobile s \<Longrightarrow> menu_open s = s"
  by (simp add: menu_open_def)

lemma menu_close_guard: "\<not> isOpen s \<or> isAnimating s \<Longrightarrow> menu_close a s = s"
  by (simp add: menu_close_def)

lemma toggle_animating: "isAnimating s \<Longrightarrow> toggle s = s"
  by (simp add: toggle_def menu_open_def menu_close_def)

lemma menu_open_starts:
  "\<not> isOpen s \<Longrightarrow> \<not> isAnimating s \<Longrightarrow> isMobile s \<Longrightarrow>
     isAnimating (menu_open s) \<and> isOpen (menu_open s) \<and> pending (menu_open s) = OpenAwaitFrame"
  by (simp add: menu_open_def prepareMenuOpen_def createOverlay_def)

lemma frame_keeps_flags:
  "isAnimating (animateMenuIn_frame s) = isAnimating s \<and> isOpen (animateMenuIn_frame s) = isOpen s"
  by (simp add: animateMenuIn_frame_def)

text \<open>
  C8. \<open>open()\<close> changes nothing when the menu is open, animating or not in mobile mode;
  \<open>close()\<close> changes nothing when the menu is closed or animating. Two toggles in a row on a
  closed menu in mobile mode: the first starts the opening animation, the second (before the
  frame callback or before the timer) leaves the whole state as it is; once the animation has
  completed the flag is down and the menu is open.
\<close>

theorem menu_reentrancy:
  "(isOpen s \<or> isAnimating s \<or> \<not> isMobile s \<longrightarrow> menu_open s = s)
   \<and> (\<not> isOpen s \<or> isAnimating s \<longrightarrow> menu_close a s = s)
   \<and> (isAnimating s \<longrightarrow> toggle s = s)
   \<and> (\<not> isOpen s \<and> \<not> isAnimating s \<and> isMobile s \<longrightarrow>
        isAnimating (toggle s)
        \<and> toggle (toggle s) = toggle s
        \<and> toggle (menu_advance (toggle s)) = menu_advance (toggle s)
        \<and> \<not> isAnimating (menu_advance (menu_advance (toggle s)))
        \<and> isOpen (menu_advance (menu_advance (toggle s))))"
proof (intro conjI impI)
  assume "isOpen s \<or> isAnimating s \<or> \<not> isMobile s"
  then show "menu_open s = s" by (rule menu_open_guard)
next
  assume "\<not> isOpen s \<or> isAnimating s"
  then show "menu_close a s = s" by (rule menu_close_guard)
next
  assume "isAnimating s"
  then show "toggle s = s" by (rule toggle_animating)
next
  assume h: "\<not> isOpen s \<and> \<not> isAnimating s \<and> isMobile s"
  then have t: "toggle s = menu_open s" by (simp add: toggle_def)
  from h have st: "isAnimating (menu_open s)" "isOpen (menu_open s)"
    "pending (menu_open s) = OpenAwaitFrame"
    using menu_open_starts by blast+
  show "isAnimating (toggle s)" using t st by simp
  show "toggle (toggle s) = toggle s" using t st toggle_animating by simp
  have adv: "menu_advance (menu_open s) = animateMenuIn_frame (menu_open s)"
    using st by (simp add: menu_advance_def)
  show "toggle (menu_advance (toggle s)) = menu_advance (toggle s)"
    using t st adv toggle_animating frame_keeps_flags by simp
  have "pending (animateMenuIn_frame (menu_open s)) = OpenAwaitTimeout"
    by (simp add: animateMenuIn_frame_def)
  then have "menu_advance (animateMenuIn_frame (menu_open s))
      = menu_open_resume (animateMenuIn_frame (menu_open s))"
    by (simp add: menu_advance_def)
  with adv have adv2: "menu_advance (menu_advance (menu_open s))
      = menu_open_resume (animateMenuIn_frame (menu_open s))"
    by simp
  show "\<not> isAnimating (menu_advance (menu_advance (toggle s)))"
    by (simp add: t adv2 menu_open_resume_def dispatchMenuEvent_def)
  show "isOpen (menu_advance (menu_advance (toggle s)))"
    using st
    by (simp add: t adv2 menu_open_resume_def dispatchMenuEvent_def updateAccessibilityOpen_def
        setupMenuFocus_def animateMenuIn_frame_def)
qed

theorem menu_reentrancy_witness:
  "(\<not> isOpen (menu_init True True) \<and> \<not> isAnimating (menu_init True True)
      \<and> isMobile (menu_init True True))
   \<and> menu_close True (menu_init True True) = menu_init True True
   \<and> isAnimating (toggle (menu_init True True))
   \<and> toggle (toggle (menu_init True True)) = toggle (menu_init True True)
   \<and> menu_open (toggle (menu_init True True)) = toggle (menu_init True True)
   \<and> menu_close True (toggle (menu_init True True)) = toggle (menu_init True True)
   \<and> isOpen (menu_advance (menu_advance (toggle (menu_init True True))))"
proof -
  let ?s = "menu_init True True"
  have h: "\<not> isOpen ?s \<and> \<not> isAnimating ?s \<and> isMobile ?s"
    by (simp add: menu_init_def)
  have c: "\<not> isOpen ?s \<or> isAnimating ?s"
    using h by simp
  have r1: "menu_close True ?s = ?s"
    using menu_reentrancy [of ?s True] c by blast
  have r2: "isAnimating (toggle ?s) \<and> toggle (toggle ?s) = toggle ?s
      \<and> isOpen (menu_advance (menu_advance (toggle ?s)))"
    using menu_reentrancy [of ?s True] h by blast
  then have g: "isOpen (toggle ?s) \<or> isAnimating (toggle ?s) \<or> \<not> isMobile (toggle ?s)"
    by simp
  have r3: "menu_open (toggle ?s) = toggle ?s"
    using menu_reentrancy [of "toggle ?s" True] g by blast
  have r4: "menu_close True (toggle ?s) = toggle ?s"
    using menu_reentrancy [of "toggle ?s" True] r2 by blast
  show ?thesis using h r1 r2 r3 r4 by blast
qed

section \<open>Properties of the modal manager\<close>


lemma modal_inv_init: "modal_inv (modal_init d foc)"
  by (auto simp: modal_inv_def modal_init_def shown_def setupAccessibility_def split: option.splits)

lemma doc_open_body: "doc (open_body m s) = (doc s)(m := map_option (\<lambda>e. e\<lparr>elHasBackdrop := True, elDisplay := ''flex'', elOpacity := ''0'',
                      elTransform := ''scale(0.9)''\<rparr>) (doc s m))"
  by (simp add: open_body_def prepareModal_def upd_el_def)

lemma fields_open_body:
  "activeModal (open_body m s) = Some m" "mpending (open_body m s) = OpenFrame m"
  "modalIsAnimating (open_body m s)" "previousFocus (open_body m s) = activeElement s"
  "activeElement (open_body m s) = activeElement s"
  by (simp_all add: open_body_def prepareModal_def upd_el_def)

lemma shown_open_body: "shown (open_body m s) m' = shown s m'"
  by (simp add: shown_def doc_open_body split: option.splits)

lemma inv_open_body:
  assumes "modal_inv s" "activeModal s = None" "doc s m \<noteq> None"
  shows "modal_inv (open_body m s)"
  using assms unfolding modal_inv_def
  by (simp add: fields_open_body shown_open_body doc_open_body)


lemma fields_close_begin:
  "activeModal (close_begin nxt s) = activeModal s"
  "previousFocus (close_begin nxt s) = previousFocus s"
  "activeElement (close_begin nxt s) = activeElement s"
  by (simp_all add: close_begin_def upd_el_def split: option.splits)

lemma shown_close_begin: "shown (close_begin nxt s) m' = shown s m'"
  by (auto simp: shown_def close_begin_def upd_el_def split: option.splits)

lemma close_begin_started:
  assumes "activeModal s = Some m" "\<not> modalIsAnimating s"
  shows "mpending (close_begin nxt s) = CloseTimeout m nxt" "modalIsAnimating (close_begin nxt s)"
  using assms by (simp_all add: close_begin_def upd_el_def)

lemma close_begin_noop:
  "activeModal s = None \<or> modalIsAnimating s \<Longrightarrow> close_begin nxt s = s"
  by (auto simp: close_begin_def split: option.splits)

lemma dom_close_begin: "(doc (close_begin nxt s) m' = None) = (doc s m' = None)"
  by (simp add: close_begin_def upd_el_def split: option.splits)

lemma inv_close_begin:
  assumes "modal_inv s" "\<forall>b. nxt = Some b \<longrightarrow> doc s b \<noteq> None"
  shows "modal_inv (close_begin nxt s)"
proof (cases "activeModal s = None \<or> modalIsAnimating s")
  case True
  then show ?thesis using assms(1) by (simp add: close_begin_noop)
next
  case False
  then obtain m where m: "activeModal s = Some m" "\<not> modalIsAnimating s" by auto
  show ?thesis
    using assms unfolding modal_inv_def
    by (simp add: fields_close_begin shown_close_begin dom_close_begin close_begin_started [OF m] m)
qed

lemma fields_close_resume:
  "activeModal (close_resume m s) = None"
  "previousFocus (close_resume m s) = None"
  "\<not> modalIsAnimating (close_resume m s)"
  "mpending (close_resume m s) = Idle"
  "activeElement (close_resume m s) = (case previousFocus s of None \<Rightarrow> activeElement s | Some p \<Rightarrow> Some p)"
  by (simp_all add: close_resume_def cleanupModal_def dispatchModalEvent_def upd_el_def Let_def split: option.splits)

lemma doc_close_resume:
  "doc (close_resume m s) = (doc s)(m := map_option (\<lambda>e. e\<lparr>elDisplay := ''none'', elTransition := [], elTransform := [], elAriaHidden := Some ''true''\<rparr>) (doc s m))"
  by (cases "doc s m")
    (simp_all add: close_resume_def cleanupModal_def dispatchModalEvent_def upd_el_def Let_def
      split: option.splits)

lemma shown_close_resume: "shown (close_resume m s) m' = (m' \<noteq> m \<and> shown s m')"
  by (simp add: shown_def doc_close_resume split: option.splits)

lemma inv_close_resume:
  assumes "modal_inv s" "activeModal s = Some m"
  shows "modal_inv (close_resume m s)"
  using assms unfolding modal_inv_def
  by (auto simp add: fields_close_resume shown_close_resume)


lemma fields_animateIn_frame:
  "activeModal (animateIn_frame m s) = activeModal s"
  "previousFocus (animateIn_frame m s) = previousFocus s"
  "activeElement (animateIn_frame m s) = activeElement s"
  "modalIsAnimating (animateIn_frame m s) = modalIsAnimating s"
  "mpending (animateIn_frame m s) = OpenTimeout m"
  by (simp_all add: animateIn_frame_def upd_el_def)

lemma shown_animateIn_frame: "shown (animateIn_frame m s) m' = shown s m'"
  by (auto simp: shown_def animateIn_frame_def upd_el_def split: option.splits)

lemma dom_animateIn_frame: "(doc (animateIn_frame m s) m' = None) = (doc s m' = None)"
  by (simp add: animateIn_frame_def upd_el_def)

lemma inv_animateIn_frame:
  assumes "modal_inv s" "mpending s = OpenFrame m"
  shows "modal_inv (animateIn_frame m s)"
  using assms unfolding modal_inv_def
  by (auto simp add: fields_animateIn_frame shown_animateIn_frame dom_animateIn_frame)

lemma fields_setupFocusTrap:
  "activeModal (setupFocusTrap m s) = activeModal s"
  "previousFocus (setupFocusTrap m s) = previousFocus s"
  "activeElement (setupFocusTrap m s) = activeElement s"
  "modalIsAnimating (setupFocusTrap m s) = modalIsAnimating s"
  "mpending (setupFocusTrap m s) = mpending s"
  by (simp_all add: setupFocusTrap_def upd_el_def split: option.splits list.splits)

lemma shown_setupFocusTrap: "shown (setupFocusTrap m s) m' = shown s m'"
  by (auto simp: shown_def setupFocusTrap_def upd_el_def split: option.splits list.splits)

lemma dom_setupFocusTrap: "(doc (setupFocusTrap m s) m' = None) = (doc s m' = None)"
  by (simp add: setupFocusTrap_def upd_el_def split: option.splits list.splits)

lemma fields_open_resume:
  "activeModal (open_resume m s) = activeModal s"
  "previousFocus (open_resume m s) = previousFocus s"
  "activeElement (open_resume m s) = Some m"
  "\<not> modalIsAnimating (open_resume m s)"
  "mpending (open_resume m s) = Idle"
  by (simp_all add: open_resume_def dispatchModalEvent_def upd_el_def fields_setupFocusTrap)

lemma shown_open_resume: "m' \<noteq> m \<Longrightarrow> shown (open_resume m s) m' = shown s m'"
  using shown_setupFocusTrap [of m s m']
  by (simp add: shown_def open_resume_def dispatchModalEvent_def upd_el_def)

lemma dom_open_resume: "(doc (open_resume m s) m' = None) = (doc s m' = None)"
  by (simp add: open_resume_def dispatchModalEvent_def upd_el_def dom_setupFocusTrap)

lemma inv_open_resume:
  assumes "modal_inv s" "mpending s = OpenTimeout m"
  shows "modal_inv (open_resume m s)"
proof -
  from assms have a: "activeModal s = Some m" by (simp add: modal_inv_def)
  have "shown (open_resume m s) m' \<Longrightarrow> m' = m" for m'
    using assms(1) a shown_open_resume [of m' m s] by (auto simp: modal_inv_def)
  then show ?thesis
    using assms a unfolding modal_inv_def
    by (auto simp add: fields_open_resume dom_open_resume)
qed

lemma inv_modal_open:
  assumes "modal_inv s"
  shows "modal_inv (modal_open b s)"
proof (cases "modalIsAnimating s \<or> doc s b = None")
  case True
  then show ?thesis using assms by (auto simp: modal_open_def)
next
  case False
  show ?thesis
  proof (cases "activeModal s")
    case None
    then show ?thesis using assms False by (auto simp: modal_open_def inv_open_body)
  next
    case (Some a)
    then have st: "mpending (close_begin (Some b) s) = CloseTimeout a (Some b)"
      "modalIsAnimating (close_begin (Some b) s)"
      using False close_begin_started by auto
    have "modal_inv (close_begin (Some b) s)" using assms False by (simp add: inv_close_begin)
    then show ?thesis using Some False by (auto simp: modal_open_def)
  qed
qed

lemma inv_modal_tick:
  assumes "modal_inv s"
  shows "modal_inv (modal_tick s)"
proof (cases "mpending s")
  case Idle
  then show ?thesis using assms by (simp add: modal_tick_def)
next
  case (CloseTimeout m nxt)
  with assms have a: "activeModal s = Some m" by (simp add: modal_inv_def)
  have c: "modal_inv (close_resume m s)" using assms a by (rule inv_close_resume)
  show ?thesis
  proof (cases nxt)
    case None
    then show ?thesis using c CloseTimeout by (simp add: modal_tick_def)
  next
    case (Some b)
    with assms CloseTimeout have "doc s b \<noteq> None" by (simp add: modal_inv_def)
    then have "doc (close_resume m s) b \<noteq> None" by (auto simp: doc_close_resume)
    with c have "modal_inv (open_body b (close_resume m s))"
      by (simp add: inv_open_body fields_close_resume)
    then show ?thesis using CloseTimeout Some by (simp add: modal_tick_def)
  qed
next
  case (OpenFrame m)
  then show ?thesis using assms by (simp add: modal_tick_def inv_animateIn_frame)
next
  case (OpenTimeout m)
  then show ?thesis using assms by (simp add: modal_tick_def inv_open_resume)
qed


lemma inv_modal_step:
  assumes "modal_inv s"
  shows "modal_inv (modal_step s ev)"
proof (cases ev)
  case (EvOpen m)
  then show ?thesis using assms by (simp add: inv_modal_open)
next
  case EvClose
  then show ?thesis using assms by (simp add: modal_close_def inv_close_begin)
next
  case EvTick
  then show ?thesis using assms by (simp add: inv_modal_tick)
next
  case EvFocusTimer
  then show ?thesis using assms by (auto simp: modal_inv_def shown_def split: list.splits)
next
  case (EvFocus f)
  then show ?thesis using assms by (auto simp: modal_inv_def shown_def)
next
  case (EvKey k)
  then show ?thesis using assms by (simp add: handleKeydown_def modal_close_def inv_close_begin)
next
  case (EvClick b)
  then show ?thesis using assms by (simp add: handleBackdropClick_def modal_close_def inv_close_begin)
qed

lemma reachable_inv: "reachable s \<Longrightarrow> modal_inv s"
  by (induction rule: reachable.induct) (simp_all add: modal_inv_init inv_modal_step)


text \<open>
  C1. In every reachable state at most one dialog element has \<open>aria-hidden="false"\<close>.
  When \<open>open(b)\<close> is called while dialog \<open>a\<close> is active and no animation is in flight, the call
  first starts closing \<open>a\<close> and touches nothing of \<open>b\<close>; when the close timer fires, the close
  sequence of \<open>a\<close> runs to its end (\<open>a\<close> hidden, \<open>aria-hidden="true"\<close>, no active dialog, no
  dialog shown, \<open>b\<close> still untouched) and only then the opening of \<open>b\<close> makes \<open>b\<close> visible.
  A call of \<open>open\<close> while an animation is in flight changes nothing.
\<close>

theorem one_modal_at_a_time:
  assumes "reachable s"
  shows "(\<forall>a b. shown s a \<and> shown s b \<longrightarrow> a = b)
    \<and> (\<forall>a b. \<not> modalIsAnimating s \<and> activeModal s = Some a \<and> doc s b \<noteq> None \<longrightarrow>
          mpending (modal_open b s) = CloseTimeout a (Some b)
          \<and> (b \<noteq> a \<longrightarrow> doc (modal_open b s) b = doc s b)
          \<and> modal_tick (modal_open b s) = open_body b (close_resume a (modal_open b s))
          \<and> map_option elAriaHidden (doc (close_resume a (modal_open b s)) a) = Some (Some ''true'')
          \<and> map_option elDisplay (doc (close_resume a (modal_open b s)) a) = Some ''none''
          \<and> activeModal (close_resume a (modal_open b s)) = None
          \<and> (\<forall>m. \<not> shown (close_resume a (modal_open b s)) m)
          \<and> (b \<noteq> a \<longrightarrow> doc (close_resume a (modal_open b s)) b = doc s b)
          \<and> activeModal (modal_tick (modal_open b s)) = Some b
          \<and> map_option elDisplay (doc (modal_tick (modal_open b s)) b) = Some ''flex'')
    \<and> (\<forall>b. modalIsAnimating s \<longrightarrow> modal_open b s = s)"
proof (intro conjI allI impI)
  have inv: "modal_inv s" using assms by (rule reachable_inv)
  {
    fix a b
    assume "shown s a \<and> shown s b"
    with inv have "activeModal s = Some a" "activeModal s = Some b"
      by (simp_all add: modal_inv_def)
    then show "a = b" by simp
  }
  fix a b
  assume h: "\<not> modalIsAnimating s \<and> activeModal s = Some a \<and> doc s b \<noteq> None"
  then have mo: "modal_open b s = close_begin (Some b) s"
    by (auto simp: modal_open_def)
  from h have da: "doc s a \<noteq> None" using inv by (simp add: modal_inv_def)
  from h show p: "mpending (modal_open b s) = CloseTimeout a (Some b)"
    by (simp add: mo close_begin_started)
  from h have dcb: "doc (close_begin (Some b) s) = (doc s)(a := map_option (\<lambda>e. e\<lparr>elTransition := modal_transition, elOpacity := ''0'',
                                elTransform := ''scale(0.9)''\<rparr>) (doc s a))"
    by (simp add: close_begin_def upd_el_def)
  show "doc (modal_open b s) b = doc s b" if "b \<noteq> a"
    using that by (simp add: mo dcb)
  show t: "modal_tick (modal_open b s) = open_body b (close_resume a (modal_open b s))"
    using p by (simp add: modal_tick_def)
  show "map_option elAriaHidden (doc (close_resume a (modal_open b s)) a) = Some (Some ''true'')"
    using da by (auto simp: doc_close_resume mo dcb)
  show "map_option elDisplay (doc (close_resume a (modal_open b s)) a) = Some ''none''"
    using da by (auto simp: doc_close_resume mo dcb)
  show "activeModal (close_resume a (modal_open b s)) = None"
    by (simp add: fields_close_resume)
  show "\<not> shown (close_resume a (modal_open b s)) m" for m
  proof
    assume "shown (close_resume a (modal_open b s)) m"
    then have "m \<noteq> a" "shown s m"
      by (simp_all add: shown_close_resume mo shown_close_begin)
    with inv h show False by (simp add: modal_inv_def)
  qed
  show "doc (close_resume a (modal_open b s)) b = doc s b" if "b \<noteq> a"
    using that by (simp add: doc_close_resume mo dcb)
  show "activeModal (modal_tick (modal_open b s)) = Some b"
    by (simp add: t fields_open_body)
  have "doc (close_resume a (modal_open b s)) b \<noteq> None"
    using h da by (auto simp: doc_close_resume mo dcb)
  then show "map_option elDisplay (doc (modal_tick (modal_open b s)) b) = Some ''flex''"
    by (auto simp: t doc_open_body)
next
  fix b
  assume "modalIsAnimating s"
  then show "modal_open b s = s" by (simp add: modal_open_def)
qed


lemma reachable_run: "reachable s \<Longrightarrow> reachable (modal_run s evs)"
  unfolding modal_run_def
  by (induction evs arbitrary: s) (simp_all add: reach_step)

lemmas modal_eval_defs =
  modal_run_def modal_init_def two_modals_def plain_el_def modal_open_def open_body_def
  prepareModal_def upd_el_def setupAccessibility_def modal_tick_def animateIn_frame_def
  open_resume_def setupFocusTrap_def dispatchModalEvent_def shown_def close_begin_def
  close_resume_def cleanupModal_def modal_close_def

lemma newsletter_open_fields:
  "activeModal newsletter_open = Some ''newsletter-modal''"
  "\<not> modalIsAnimating newsletter_open"
  "doc newsletter_open ''community-modal'' \<noteq> None"
  "shown newsletter_open ''newsletter-modal''"
  "previousFocus newsletter_open = Some ''trigger''"
  by (simp_all add: newsletter_open_def modal_eval_defs)

theorem one_modal_at_a_time_witness:
  "reachable newsletter_open
   \<and> \<not> modalIsAnimating newsletter_open
   \<and> activeModal newsletter_open = Some ''newsletter-modal''
   \<and> doc newsletter_open ''community-modal'' \<noteq> None
   \<and> shown newsletter_open ''newsletter-modal''
   \<and> mpending (modal_open ''community-modal'' newsletter_open)
        = CloseTimeout ''newsletter-modal'' (Some ''community-modal'')
   \<and> (\<forall>m. \<not> shown (close_resume ''newsletter-modal''
                      (modal_open ''community-modal'' newsletter_open)) m)
   \<and> activeModal (modal_tick (modal_open ''community-modal'' newsletter_open))
        = Some ''community-modal''"
proof -
  have r: "reachable newsletter_open"
    unfolding newsletter_open_def by (rule reachable_run) (rule reach_init)
  have h: "\<not> modalIsAnimating newsletter_open
      \<and> activeModal newsletter_open = Some ''newsletter-modal''
      \<and> doc newsletter_open ''community-modal'' \<noteq> None"
    by (simp add: newsletter_open_fields)
  from one_modal_at_a_time [OF r] h
  have "mpending (modal_open ''community-modal'' newsletter_open)
        = CloseTimeout ''newsletter-modal'' (Some ''community-modal'')
   \<and> (\<forall>m. \<not> shown (close_resume ''newsletter-modal''
                      (modal_open ''community-modal'' newsletter_open)) m)
   \<and> activeModal (modal_tick (modal_open ''community-modal'' newsletter_open))
        = Some ''community-modal''"
    by blast
  with r h newsletter_open_fields(4) show ?thesis by blast
qed

subsection \<open>Focus\<close>











section \<open>Properties of the navigation controller\<close>













section \<open>Properties of the form pipeline\<close>



lemma required_email_bad:
  "first_failure ''not-an-email'' (split CHR '','' ''required,email'')
     = Some ''Please enter a valid email address''"
  by code_simp

lemma required_email_good:
  "first_failure ''a@b.co'' (split CHR '','' ''required,email'') = None"
  by code_simp

text \<open>
  C5. An input whose rule list is \<open>required,email\<close>: with the value \<open>not-an-email\<close>
  \<open>validateField\<close> fails and the error node carries exactly the e-mail message; with the
  value \<open>a@b.co\<close> it succeeds, an existing error node is hidden, the class \<open>error\<close> is gone
  and \<open>aria-invalid\<close> is \<open>false\<close>.
\<close>

theorem required_email_field:
  "validateField (f\<lparr>validateAttr := Some ''required,email'', fieldValue := ''not-an-email''\<rparr>)
     = (False, showFieldError (f\<lparr>validateAttr := Some ''required,email'',
                                  fieldValue := ''not-an-email''\<rparr>)
                 ''Please enter a valid email address'')
   \<and> map_option errText (errorNode (snd (validateField
         (f\<lparr>validateAttr := Some ''required,email'', fieldValue := ''not-an-email''\<rparr>))))
       = Some ''Please enter a valid email address''
   \<and> map_option errDisplay (errorNode (snd (validateField
         (f\<lparr>validateAttr := Some ''required,email'', fieldValue := ''not-an-email''\<rparr>))))
       = Some ''block''
   \<and> fst (validateField (f\<lparr>validateAttr := Some ''required,email'', fieldValue := ''a@b.co''\<rparr>))
   \<and> map_option errDisplay (errorNode (snd (validateField
         (f\<lparr>validateAttr := Some ''required,email'', fieldValue := ''a@b.co''\<rparr>))))
       = map_option (\<lambda>n. ''none'') (errorNode f)
   \<and> \<not> classError (snd (validateField
         (f\<lparr>validateAttr := Some ''required,email'', fieldValue := ''a@b.co''\<rparr>)))
   \<and> ariaInvalid (snd (validateField
         (f\<lparr>validateAttr := Some ''required,email'', fieldValue := ''a@b.co''\<rparr>)))
       = Some ''false''"
proof -
  have bad: "validateField (f\<lparr>validateAttr := Some ''required,email'', fieldValue := ''not-an-email''\<rparr>)
     = (False, showFieldError (f\<lparr>validateAttr := Some ''required,email'',
                                  fieldValue := ''not-an-email''\<rparr>)
                 ''Please enter a valid email address'')"
    by (simp add: validateField_def required_email_bad)
  have good: "validateField (f\<lparr>validateAttr := Some ''required,email'', fieldValue := ''a@b.co''\<rparr>)
     = (True, clearFieldError (f\<lparr>validateAttr := Some ''required,email'', fieldValue := ''a@b.co''\<rparr>))"
    by (simp add: validateField_def required_email_good)
  show ?thesis
    unfolding bad good
    by (simp add: showFieldError_def clearFieldError_def Let_def option.map_comp comp_def)
qed

lemma skip_unknown:
  "validationRules (trim (fst (rule_parts r))) = None \<Longrightarrow>
     first_failure v (r # rs) = first_failure v rs"
  by (cases "rule_parts r") simp

lemma all_unknown:
  "\<forall>r\<in>set rs. validationRules (trim (fst (rule_parts r))) = None \<Longrightarrow>
     first_failure v rs = None"
  by (induction rs) (simp_all add: skip_unknown del: first_failure.simps(2))

text \<open>
  C10. A rule whose trimmed name has no entry in the registry is skipped. An input all of
  whose rule names are unregistered validates successfully whatever its value, and an input
  without a \<open>data-validate\<close> attribute validates to true and is left untouched.
\<close>

theorem unknown_rules_skipped:
  "(validationRules (trim (fst (rule_parts r))) = None \<longrightarrow>
      first_failure v (r # rs) = first_failure v rs)
   \<and> (validateAttr input = Some a
       \<and> (\<forall>r\<in>set (split CHR '','' a). validationRules (trim (fst (rule_parts r))) = None)
       \<longrightarrow> fst (validateField input))
   \<and> (validateAttr input = None \<longrightarrow> validateField input = (True, input))"
proof (intro conjI impI)
  assume "validationRules (trim (fst (rule_parts r))) = None"
  then show "first_failure v (r # rs) = first_failure v rs" by (rule skip_unknown)
next
  assume h: "validateAttr input = Some a
       \<and> (\<forall>r\<in>set (split CHR '','' a). validationRules (trim (fst (rule_parts r))) = None)"
  then have "first_failure (fieldValue input) (split CHR '','' a) = None"
    using all_unknown by blast
  with h show "fst (validateField input)" by (simp add: validateField_def)
next
  assume "validateAttr input = None"
  then show "validateField input = (True, input)" by (simp add: validateField_def)
qed

lemma misspelled: "\<forall>r\<in>set (split CHR '','' ''requird, emial:3'').
    validationRules (trim (fst (rule_parts r))) = None"
  by code_simp

theorem unknown_rules_skipped_witness:
  "list_all (\<lambda>r. validationRules (trim (fst (rule_parts r))) = None)
     (split CHR '','' ''requird, emial:3'')
   \<and> fst (validateField (plain_field ''email'' (Some ''requird, emial:3'') ''not-an-email''))
   \<and> fst (validateField (plain_field ''email'' (Some ''requird, emial:3'') []))
   \<and> validateField (plain_field ''email'' None ''not-an-email'')
       = (True, plain_field ''email'' None ''not-an-email'')"
proof -
  have a: "validateAttr (plain_field ''email'' (Some ''requird, emial:3'') v)
      = Some ''requird, emial:3''" for v
    by (simp add: plain_field_def)
  have n: "validateAttr (plain_field ''email'' None ''not-an-email'') = None"
    by (simp add: plain_field_def)
  have one: "fst (validateField (plain_field ''email'' (Some ''requird, emial:3'') v))" for v
    using unknown_rules_skipped
      [of _ _ _ "plain_field ''email'' (Some ''requird, emial:3'') v" "''requird, emial:3''"]
      a misspelled
    by blast
  have two: "validateField (plain_field ''email'' None ''not-an-email'')
       = (True, plain_field ''email'' None ''not-an-email'')"
    using unknown_rules_skipped [of _ _ _ "plain_field ''email'' None ''not-an-email''"] n
    by blast
  have all: "list_all (\<lambda>r. validationRules (trim (fst (rule_parts r))) = None)
     (split CHR '','' ''requird, emial:3'')"
    using misspelled by (simp add: list_all_iff)
  show ?thesis using all one two by blast
qed

subsection \<open>Submission\<close>

lemma formId_setFormSubmitting: "formId (setFormSubmitting f b) = formId f"
  by (simp add: setFormSubmitting_def)

lemma formId_validateForm: "formId (snd (validateForm f)) = formId f"
  by (simp add: validateForm_def Let_def)

lemma submit_ignored:
  "formId f \<in> submittingForms s \<Longrightarrow> handleFormSubmit s f = (s, f, Ignored)"
  by (simp add: handleFormSubmit_def)

lemma submit_started:
  assumes "formId f \<notin> submittingForms s" "fst (validateForm f)"
  shows "handleFormSubmit s f =
    (s\<lparr>submittingForms := insert (formId f) (submittingForms s),
       submissions := submissions s
         @ [(formId f, strategy_of (formId f),
             getFormData (setFormSubmitting (snd (validateForm f)) True))]\<rparr>,
     setFormSubmitting (snd (validateForm f)) True, Started)"
  using assms by (cases "validateForm f") (simp add: handleFormSubmit_def Let_def)

lemma settled_set:
  "submittingForms (fst (handleFormSubmit_settled s f out)) = submittingForms s - {formId f}"
  by (cases out)
    (simp_all add: handleFormSubmit_settled_def handleFormSuccess_def handleFormError_def
      showFormMessage_def Let_def split: prod.splits)

text \<open>
  C2. While the id of a form is in the submitting-forms set, a submit of that form returns at
  once and changes neither the module nor the form. A submit of a valid form whose id is not
  in the set calls the submission strategy once and puts the id in the set, so that a second
  submit before the first has settled is ignored and the number of calls for that id stays
  one more than before. When the submission settles, resolved or rejected, the id is removed
  from the set.
\<close>

theorem double_submit_guard:
  "(formId f \<in> submittingForms s \<longrightarrow> handleFormSubmit s f = (s, f, Ignored))
   \<and> (formId f \<notin> submittingForms s \<and> fst (validateForm f) \<longrightarrow>
        (case handleFormSubmit s f of
           (s1, f1, r1) \<Rightarrow>
             r1 = Started \<and> formId f1 = formId f \<and> formId f \<in> submittingForms s1
             \<and> calls_for (formId f) s1 = Suc (calls_for (formId f) s)
             \<and> handleFormSubmit s1 f1 = (s1, f1, Ignored)
             \<and> calls_for (formId f) (fst (handleFormSubmit s1 f1)) = Suc (calls_for (formId f) s)))
   \<and> submittingForms (fst (handleFormSubmit_settled s f out)) = submittingForms s - {formId f}
   \<and> formId f \<notin> submittingForms (fst (handleFormSubmit_settled s f out))"
proof (intro conjI impI)
  assume "formId f \<in> submittingForms s"
  then show "handleFormSubmit s f = (s, f, Ignored)" by (rule submit_ignored)
next
  assume h: "formId f \<notin> submittingForms s \<and> fst (validateForm f)"
  define f1 where "f1 = setFormSubmitting (snd (validateForm f)) True"
  define s1 where "s1 = s\<lparr>submittingForms := insert (formId f) (submittingForms s),
       submissions := submissions s @ [(formId f, strategy_of (formId f), getFormData f1)]\<rparr>"
  have st: "handleFormSubmit s f = (s1, f1, Started)"
    using h by (simp add: submit_started s1_def f1_def)
  have id: "formId f1 = formId f"
    by (simp add: f1_def formId_setFormSubmitting formId_validateForm)
  have mem: "formId f \<in> submittingForms s1" by (simp add: s1_def)
  have cnt: "calls_for (formId f) s1 = Suc (calls_for (formId f) s)"
    by (simp add: calls_for_def s1_def)
  have ign: "handleFormSubmit s1 f1 = (s1, f1, Ignored)"
    using mem id by (simp add: submit_ignored)
  show "case handleFormSubmit s f of
           (s1, f1, r1) \<Rightarrow>
             r1 = Started \<and> formId f1 = formId f \<and> formId f \<in> submittingForms s1
             \<and> calls_for (formId f) s1 = Suc (calls_for (formId f) s)
             \<and> handleFormSubmit s1 f1 = (s1, f1, Ignored)
             \<and> calls_for (formId f) (fst (handleFormSubmit s1 f1)) = Suc (calls_for (formId f) s)"
    unfolding st using id mem cnt ign by simp
next
  show "submittingForms (fst (handleFormSubmit_settled s f out)) = submittingForms s - {formId f}"
    by (rule settled_set)
  then show "formId f \<notin> submittingForms (fst (handleFormSubmit_settled s f out))"
    by simp
qed

lemma newsletter_valid: "fst (validateForm (newsletter_form ''a@b.co''))"
  by (simp add: validateForm_def newsletter_form_def plain_field_def validateField_def
      required_email_good)

lemma newsletter_started_eq:
  "newsletter_started =
     (forms_init\<lparr>submittingForms := {''newsletter-form''},
        submissions := [(''newsletter-form'', Newsletter, [])]\<rparr>,
      setFormSubmitting (snd (validateForm (newsletter_form ''a@b.co''))) True, Started)"
proof -
  have n: "formId (newsletter_form ''a@b.co'') \<notin> submittingForms forms_init"
    by (simp add: forms_init_def)
  have d: "getFormData (setFormSubmitting (snd (validateForm (newsletter_form ''a@b.co''))) True) = []"
    by (simp add: getFormData_def setFormSubmitting_def validateForm_def newsletter_form_def
        Let_def)
  show ?thesis
    unfolding newsletter_started_def submit_started [OF n newsletter_valid] d
    by (simp add: forms_init_def newsletter_form_def strategy_of_def)
qed

theorem double_submit_guard_witness:
  "formId (newsletter_form ''a@b.co'') \<notin> submittingForms forms_init
   \<and> fst (validateForm (newsletter_form ''a@b.co''))
   \<and> snd (snd newsletter_started) = Started
   \<and> formId (fst (snd newsletter_started)) \<in> submittingForms (fst newsletter_started)
   \<and> calls_for ''newsletter-form'' (fst newsletter_started) = 1
   \<and> handleFormSubmit (fst newsletter_started) (fst (snd newsletter_started))
       = (fst newsletter_started, fst (snd newsletter_started), Ignored)"
proof -
  let ?f = "newsletter_form ''a@b.co''"
  define s1 where "s1 = fst newsletter_started"
  define f1 where "f1 = fst (snd newsletter_started)"
  define r1 where "r1 = snd (snd newsletter_started)"
  have st: "handleFormSubmit forms_init ?f = (s1, f1, r1)"
    by (simp add: s1_def f1_def r1_def newsletter_started_def)
  have n: "formId ?f \<notin> submittingForms forms_init"
    by (simp add: forms_init_def)
  have c0: "calls_for (formId ?f) forms_init = 0"
    by (simp add: calls_for_def forms_init_def)
  have i: "formId ?f = ''newsletter-form''"
    by (simp add: newsletter_form_def)
  have c: "r1 = Started \<and> formId f1 = formId ?f \<and> formId ?f \<in> submittingForms s1
      \<and> calls_for (formId ?f) s1 = Suc (calls_for (formId ?f) forms_init)
      \<and> handleFormSubmit s1 f1 = (s1, f1, Ignored)
      \<and> calls_for (formId ?f) (fst (handleFormSubmit s1 f1))
          = Suc (calls_for (formId ?f) forms_init)"
    using double_submit_guard [of ?f forms_init, THEN conjunct2, THEN conjunct1, THEN mp,
        OF conjI [OF n newsletter_valid], unfolded st prod.case] .
  then have m: "formId f1 \<in> submittingForms s1" by simp
  have g: "handleFormSubmit s1 f1 = (s1, f1, Ignored)"
    using double_submit_guard [of f1 s1, THEN conjunct1, THEN mp, OF m] .
  have k: "calls_for ''newsletter-form'' s1 = 1"
    using c c0 by (simp add: i)
  show ?thesis
    using n newsletter_valid c m g k unfolding s1_def f1_def r1_def by simp
qed


lemma newsletter_validated:
  "snd (validateForm (newsletter_form ''a@b.co''))
     = (newsletter_form ''a@b.co'')
         \<lparr>inputs := [clearFieldError (plain_field ''email'' (Some ''required,email'') ''a@b.co'')]\<rparr>"
  by (simp add: validateForm_def newsletter_form_def plain_field_def validateField_def
      required_email_good)

text \<open>
  C9 on the newsletter form, whose button is labelled Subscribe and has no
  \<open>data-original-text\<close> attribute: while the submission is in flight the button reads
  \<open>Submitting...\<close> and the button and the input are disabled; after it has settled they are
  enabled again, and the button reads Submit.
\<close>

theorem submit_label_not_restored:
  "map_option btnText (submitButton (newsletter_form ''a@b.co'')) = Some ''Subscribe''
   \<and> map_option btnText (submitButton (fst (snd newsletter_started))) = Some ''Submitting...''
   \<and> map_option btnDisabled (submitButton (fst (snd newsletter_started))) = Some True
   \<and> map fieldDisabled (inputs (fst (snd newsletter_started))) = [True]
   \<and> map fieldDisabled (inputs (snd (handleFormSubmit_settled (fst newsletter_started)
         (fst (snd newsletter_started)) (Resolved (strategy_result Newsletter))))) = [False]
   \<and> map_option btnDisabled (submitButton (snd (handleFormSubmit_settled (fst newsletter_started)
         (fst (snd newsletter_started)) (Resolved (strategy_result Newsletter))))) = Some False
   \<and> map_option btnText (submitButton (snd (handleFormSubmit_settled (fst newsletter_started)
         (fst (snd newsletter_started)) (Resolved (strategy_result Newsletter))))) = Some ''Submit''"
proof -
  define f1 where "f1 = fst (snd newsletter_started)"
  define s1 where "s1 = fst newsletter_started"
  have f1: "f1 = setFormSubmitting ((newsletter_form ''a@b.co'')
         \<lparr>inputs := [clearFieldError (plain_field ''email'' (Some ''required,email'') ''a@b.co'')]\<rparr>)
       True"
    by (simp add: f1_def newsletter_started_eq newsletter_validated)
  have b: "submitButton f1 = Some \<lparr>btnText = ''Submitting...'', btnDisabled = True,
      btnClassSubmitting = True, dataOriginalText = None\<rparr>"
    by (simp add: f1 setFormSubmitting_def newsletter_form_def)
  have i: "map fieldDisabled (inputs f1) = [True]"
    by (simp add: f1 setFormSubmitting_def newsletter_form_def)
  define f2 where "f2 = snd (handleFormSubmit_settled s1 f1 (Resolved (strategy_result Newsletter)))"
  have f2: "f2 = setFormSubmitting (snd (handleFormSuccess s1 f1 (strategy_result Newsletter))) False"
    by (simp add: f2_def handleFormSubmit_settled_def split: prod.splits)
  have sb: "submitButton (snd (handleFormSuccess s1 f1 r)) = submitButton f1" for r
    by (simp add: handleFormSuccess_def showFormMessage_def Let_def split: prod.splits)
  have li: "length (inputs (snd (handleFormSuccess s1 f1 r))) = length (inputs f1)" for r
    by (simp add: handleFormSuccess_def showFormMessage_def Let_def split: prod.splits)
  have b2: "submitButton f2 = Some \<lparr>btnText = ''Submit'', btnDisabled = False,
      btnClassSubmitting = False, dataOriginalText = None\<rparr>"
    by (simp add: f2 setFormSubmitting_def sb b)
  have "length (inputs f1) = 1" using i by (metis length_map length_Cons list.size(3) One_nat_def)
  then have i2: "map fieldDisabled (inputs f2) = [False]"
    using li [of "strategy_result Newsletter"]
    by (cases "inputs (snd (handleFormSuccess s1 f1 (strategy_result Newsletter)))")
      (simp_all add: f2 setFormSubmitting_def)
  have o: "map_option btnText (submitButton (newsletter_form ''a@b.co'')) = Some ''Subscribe''"
    by (simp add: newsletter_form_def)
  show ?thesis
    using o b i b2 i2 unfolding f1_def s1_def f2_def by simp
qed

section \<open>Properties of the community-join endpoint\<close>









end
